theory Spec2Isabelle
  imports Complex_Main "HOL-Library.Char_ord" "HOL-Library.Multiset"
begin

section \<open>Review reminder: the scheduling core of \<open>main.ts\<close>\<close>

text \<open>
  The development embeds the pure part of the plugin: the interval table
  (\<open>parseIntervals\<close>, \<open>getInterval\<close>), the date helpers (\<open>toDateString\<close>,
  \<open>stripTime\<close>, \<open>daysBetween\<close>), the vault scan (\<open>scanVault\<close>), the bucketing
  (\<open>bucketize\<close>) and the computation the review dialog makes when it opens.

  Conventions of the embedding.
  \<^item> A JavaScript string is a \<open>string\<close> of ASCII characters; the white space that
    \<open>trim\<close> and the numeric parsers skip is TAB, LF, VT, FF, CR and SPACE.
  \<^item> A JavaScript number that can only be an integer or \<open>NaN\<close> is an \<open>int option\<close>
    (\<open>None\<close> is \<open>NaN\<close>), or an \<open>int\<close> where \<open>NaN\<close> is excluded; a number that
    frontmatter can set freely is a \<open>jsnum\<close>. Finite values are the exact
    mathematical values: the rounding of binary64, which only shows beyond
    \<open>2^53\<close> or in decimal fractions, and its overflow to infinity beyond
    \<open>10^308\<close> are not part of the model.
  \<^item> A \<open>Date\<close> is its time value, an \<open>int option\<close> of milliseconds since the epoch
    (\<open>None\<close> is the invalid date).
  \<^item> A JavaScript \<open>undefined\<close> result of an array read is \<open>None\<close>.
\<close>

subsection \<open>Numbers\<close>

datatype jsnum = NaN | Num rat | PosInf | NegInf

text \<open>The relational operator \<open><\<close> on numbers: every comparison with \<open>NaN\<close> is false.\<close>

fun num_lt :: "jsnum \<Rightarrow> jsnum \<Rightarrow> bool" where
  "num_lt NaN _ = False"
| "num_lt _ NaN = False"
| "num_lt (Num a) (Num b) = (a < b)"
| "num_lt (Num a) PosInf = True"
| "num_lt (Num a) NegInf = False"
| "num_lt PosInf _ = False"
| "num_lt NegInf NegInf = False"
| "num_lt NegInf _ = True"

text \<open>The operator \<open>+\<close> on numbers.\<close>

fun num_add :: "jsnum \<Rightarrow> jsnum \<Rightarrow> jsnum" where
  "num_add NaN _ = NaN"
| "num_add _ NaN = NaN"
| "num_add (Num a) (Num b) = Num (a + b)"
| "num_add PosInf NegInf = NaN"
| "num_add NegInf PosInf = NaN"
| "num_add PosInf _ = PosInf"
| "num_add NegInf _ = NegInf"
| "num_add (Num a) PosInf = PosInf"
| "num_add (Num a) NegInf = NegInf"

subsection \<open>Strings: white space, digits, \<open>split\<close>, \<open>trim\<close>, \<open>parseInt\<close>\<close>

definition is_ws :: "char \<Rightarrow> bool" where
  "is_ws c = (c \<in> set [CHR 0x09, CHR 0x0A, CHR 0x0B, CHR 0x0C, CHR 0x0D, CHR '' ''])"

definition is_digit :: "char \<Rightarrow> bool" where
  "is_digit c = (CHR ''0'' \<le> c \<and> c \<le> CHR ''9'')"

definition digit_val :: "char \<Rightarrow> int" where
  "digit_val c = of_char c - 48"

text \<open>The value of a run of decimal digits, most significant digit first.\<close>

definition digits_val :: "string \<Rightarrow> int" where
  "digits_val ds = foldl (\<lambda>a c. 10 * a + digit_val c) 0 ds"

text \<open>\<open>s.trim()\<close>\<close>

definition trim :: "string \<Rightarrow> string" where
  "trim s = rev (dropWhile is_ws (rev (dropWhile is_ws s)))"

text \<open>
  \<open>raw.split(",")\<close>: the pieces between the commas, in order; a string with
  \<open>n\<close> commas has \<open>n + 1\<close> pieces, some of which may be empty.
\<close>

fun split_comma :: "string \<Rightarrow> string list" where
  "split_comma [] = [[]]"
| "split_comma (c # cs) =
     (if c = CHR '','' then [] # split_comma cs
      else (case split_comma cs of
              [] \<Rightarrow> [[c]]
            | t # ts \<Rightarrow> (c # t) # ts))"

text \<open>
  \<open>parseInt(s, 10)\<close>: skip leading white space, read an optional sign, then the
  longest run of decimal digits; no digit gives \<open>NaN\<close>, whatever follows the
  digits is ignored.
\<close>

definition parseInt :: "string \<Rightarrow> int option" where
  "parseInt s =
     (let s1 = dropWhile is_ws s;
          neg = (s1 \<noteq> [] \<and> hd s1 = CHR ''-'');
          s2 = (if s1 \<noteq> [] \<and> (hd s1 = CHR ''+'' \<or> hd s1 = CHR ''-'') then tl s1 else s1);
          z = takeWhile is_digit s2
      in if z = [] then None
         else Some (if neg then - digits_val z else digits_val z))"

subsection \<open>The interval table\<close>

text \<open>The predicate of the \<open>filter\<close> call: \<open>!isNaN(n) && n > 0\<close>.\<close>

definition keep_interval :: "int option \<Rightarrow> bool" where
  "keep_interval n = (case n of None \<Rightarrow> False | Some k \<Rightarrow> 0 < k)"

definition parseIntervals :: "string \<Rightarrow> int list" where
  "parseIntervals raw =
     map the (filter keep_interval (map (\<lambda>s. parseInt (trim s)) (split_comma raw)))"

text \<open>
  The array read \<open>xs[i]\<close> for a number \<open>i\<close>: an element when \<open>i\<close> is an integer
  index inside the array, \<open>undefined\<close> otherwise.
\<close>

fun array_get :: "'a list \<Rightarrow> jsnum \<Rightarrow> 'a option" where
  "array_get xs (Num r) =
     (if r = of_int \<lfloor>r\<rfloor> \<and> 0 \<le> r \<and> \<lfloor>r\<rfloor> < int (length xs)
      then Some (xs ! nat \<lfloor>r\<rfloor>) else None)"
| "array_get xs _ = None"

definition getInterval :: "int list \<Rightarrow> jsnum \<Rightarrow> int option" where
  "getInterval intervals level =
     (if length intervals = 0 then Some 1
      else if num_lt level (Num (of_nat (length intervals)))
           then array_get intervals level
           else array_get intervals (Num (of_nat (length intervals - 1))))"

subsection \<open>Printing integers\<close>

definition digit_char :: "int \<Rightarrow> char" where
  "digit_char k = char_of (48 + k)"

text \<open>The decimal digits of an integer that is not negative.\<close>

function show_digits :: "int \<Rightarrow> string" where
  "show_digits k =
     (if k < 10 then [digit_char k] else show_digits (k div 10) @ [digit_char (k mod 10)])"
  by pat_completeness auto
termination
  by (relation "measure nat") auto

declare show_digits.simps [simp del]

definition show_int :: "int \<Rightarrow> string" where
  "show_int k = (if k < 0 then CHR ''-'' # show_digits (- k) else show_digits k)"

text \<open>\<open>String(n)\<close> for a number that is an integer or \<open>NaN\<close>.\<close>

definition show_num :: "int option \<Rightarrow> string" where
  "show_num n = (case n of None \<Rightarrow> ''NaN'' | Some k \<Rightarrow> show_int k)"

text \<open>\<open>s.padStart(2, "0")\<close>\<close>

definition padStart2 :: "string \<Rightarrow> string" where
  "padStart2 s = replicate (2 - length s) CHR ''0'' @ s"

subsection \<open>The host: time zone, date parser, number printer\<close>

text \<open>
  What the program takes from its JavaScript engine and the model does not fix is a
  parameter: the offset of local time from UTC in minutes (taken as constant: no
  daylight saving), what \<open>Date.parse\<close> makes of a string that is not a calendar
  date \<open>YYYY-MM-DD\<close> (the other forms of the date-time string format and the formats
  each implementation adds), the printing of numbers that are not integers below
  \<open>10^21\<close>, and what follows the word \<open>function\<close> when a built-in function is
  printed.
\<close>

record host =
  tzOffset :: int
  legacyParse :: "string \<Rightarrow> int option"
  fmtNumber :: "rat \<Rightarrow> string"
  nativeSource :: "string \<Rightarrow> string"

subsection \<open>Time values (ECMA-262, Date objects)\<close>

definition msPerDay :: int where
  "msPerDay = 86400000"

definition Day :: "int \<Rightarrow> int" where
  "Day t = t div msPerDay"

definition TimeWithinDay :: "int \<Rightarrow> int" where
  "TimeWithinDay t = t mod msPerDay"

definition LocalTime :: "host \<Rightarrow> int \<Rightarrow> int" where
  "LocalTime h t = t + tzOffset h * 60000"

definition UTC :: "host \<Rightarrow> int \<Rightarrow> int" where
  "UTC h t = t - tzOffset h * 60000"

definition TimeClip :: "int \<Rightarrow> int option" where
  "TimeClip t = (if \<bar>t\<bar> > 8640000000000000 then None else Some t)"

text \<open>
  The proleptic Gregorian calendar: the day number (days since 1970-01-01) of a
  year, month (1 to 12) and day of the month, and back. Years are counted from
  March in cycles of 400 years, which have 146097 days; a cycle has centuries of
  36524 days (the last one a day longer), a century has groups of four years of
  1461 days, and a group has years of 365 days (the last one a day longer).
\<close>

definition days_from_civil :: "int \<Rightarrow> int \<Rightarrow> int \<Rightarrow> int" where
  "days_from_civil y m d =
     (let y1 = (if m \<le> 2 then y - 1 else y);
          era = y1 div 400;
          yoe = y1 mod 400;
          mp = (if 2 < m then m - 3 else m + 9);
          doy = (153 * mp + 2) div 5 + d - 1;
          doe = yoe * 365 + yoe div 4 - yoe div 100 + doy
      in era * 146097 + doe - 719468)"

text \<open>
  The year of a day within its cycle of 400 years, and the day within that year;
  both count from 0, the year from March.
\<close>

definition year_of_era :: "int \<Rightarrow> int \<times> int" where
  "year_of_era doe =
     (let c = min 3 (doe div 36524);
          doc = doe - c * 36524;
          q = doc div 1461;
          doq = doc mod 1461;
          a = min 3 (doq div 365)
      in (c * 100 + q * 4 + a, doq - a * 365))"

definition civil_from_days :: "int \<Rightarrow> int \<times> int \<times> int" where
  "civil_from_days z =
     (let z1 = z + 719468;
          era = z1 div 146097
      in case year_of_era (z1 mod 146097) of
           (yoe, doy) \<Rightarrow>
             (let mp = (5 * doy + 2) div 153;
                  d = doy - (153 * mp + 2) div 5 + 1;
                  m = (if mp < 10 then mp + 3 else mp - 9);
                  y = yoe + era * 400 + (if m \<le> 2 then 1 else 0)
              in (y, m, d)))"

text \<open>\<open>DayFromYear\<close>: the day number of the first day of a year.\<close>

definition DayFromYear :: "int \<Rightarrow> int" where
  "DayFromYear y =
     365 * (y - 1970) + (y - 1969) div 4 - (y - 1901) div 100 + (y - 1601) div 400"

definition YearFromTime :: "int \<Rightarrow> int" where
  "YearFromTime t = fst (civil_from_days (Day t))"

text \<open>\<open>MonthFromTime\<close> counts from 0 (January).\<close>

definition MonthFromTime :: "int \<Rightarrow> int" where
  "MonthFromTime t = fst (snd (civil_from_days (Day t))) - 1"

definition DateFromTime :: "int \<Rightarrow> int" where
  "DateFromTime t = snd (snd (civil_from_days (Day t)))"

text \<open>\<open>MakeDay\<close>: months beyond the year and days beyond the month carry over.\<close>

definition MakeDay :: "int \<Rightarrow> int \<Rightarrow> int \<Rightarrow> int" where
  "MakeDay year month date =
     (let ym = year + month div 12;
          mn = month mod 12
      in days_from_civil ym (mn + 1) 1 + date - 1)"

definition MakeDate :: "int \<Rightarrow> int \<Rightarrow> int" where
  "MakeDate day time = day * msPerDay + time"

definition DaysInMonth :: "int \<Rightarrow> int \<Rightarrow> int" where
  "DaysInMonth y m =
     (if m = 2 then (if (y mod 4 = 0 \<and> y mod 100 \<noteq> 0) \<or> y mod 400 = 0 then 29 else 28)
      else if m = 4 \<or> m = 6 \<or> m = 9 \<or> m = 11 then 30 else 31)"

subsection \<open>Date objects\<close>

text \<open>The getters read the local time; on the invalid date they give \<open>NaN\<close>.\<close>

definition getFullYear :: "host \<Rightarrow> int option \<Rightarrow> int option" where
  "getFullYear h d = map_option (\<lambda>t. YearFromTime (LocalTime h t)) d"

definition getMonth :: "host \<Rightarrow> int option \<Rightarrow> int option" where
  "getMonth h d = map_option (\<lambda>t. MonthFromTime (LocalTime h t)) d"

definition getDate :: "host \<Rightarrow> int option \<Rightarrow> int option" where
  "getDate h d = map_option (\<lambda>t. DateFromTime (LocalTime h t)) d"

text \<open>
  \<open>new Date(year, month, date)\<close>: local midnight of that day; a year from 0 to 99
  means 1900 + year.
\<close>

definition Date3 :: "host \<Rightarrow> int option \<Rightarrow> int option \<Rightarrow> int option \<Rightarrow> int option" where
  "Date3 h year month date =
     (case (year, month, date) of
        (Some y, Some m, Some dt) \<Rightarrow>
          (let yr = (if 0 \<le> y \<and> y \<le> 99 then 1900 + y else y)
           in TimeClip (UTC h (MakeDate (MakeDay yr m dt) 0)))
      | _ \<Rightarrow> None)"

text \<open>
  The calendar date \<open>YYYY-MM-DD\<close> of the date-time string format, which
  \<open>Date.parse\<close> reads as midnight UTC of that day.
\<close>

definition iso_date :: "string \<Rightarrow> int option" where
  "iso_date s =
     (let ys = take 4 s; ms = take 2 (drop 5 s); ds = drop 8 s;
          y = digits_val ys; m = digits_val ms; d = digits_val ds
      in if length s = 10 \<and> s ! 4 = CHR ''-'' \<and> s ! 7 = CHR ''-''
            \<and> (\<forall>c \<in> set (ys @ ms @ ds). is_digit c)
            \<and> 1 \<le> m \<and> m \<le> 12 \<and> 1 \<le> d \<and> d \<le> DaysInMonth y m
         then Some (days_from_civil y m d * msPerDay) else None)"

text \<open>\<open>new Date(s)\<close> for a string \<open>s\<close>.\<close>

definition Date_of_string :: "host \<Rightarrow> string \<Rightarrow> int option" where
  "Date_of_string h s =
     (case iso_date s of
        Some t \<Rightarrow> TimeClip t
      | None \<Rightarrow> (case legacyParse h s of None \<Rightarrow> None | Some t \<Rightarrow> TimeClip t))"

text \<open>
  \<open>d.setDate(dt)\<close>: the day of the month of the local time is replaced, the time
  within the day is kept.
\<close>

definition setDate :: "host \<Rightarrow> int option \<Rightarrow> int option \<Rightarrow> int option" where
  "setDate h d dt =
     (case (d, dt) of
        (Some t, Some n) \<Rightarrow>
          (let lt = LocalTime h t;
               newDate = MakeDate (MakeDay (YearFromTime lt) (MonthFromTime lt) n) (TimeWithinDay lt)
           in TimeClip (UTC h newDate))
      | _ \<Rightarrow> None)"

subsection \<open>The date helpers of the plugin\<close>

definition toDateString :: "host \<Rightarrow> int option \<Rightarrow> string" where
  "toDateString h d =
     (let y = getFullYear h d;
          m = padStart2 (show_num (map_option (\<lambda>k. k + 1) (getMonth h d)));
          day = padStart2 (show_num (getDate h d))
      in show_num y @ ''-'' @ m @ ''-'' @ day)"

definition stripTime :: "host \<Rightarrow> int option \<Rightarrow> int option" where
  "stripTime h d = Date3 h (getFullYear h d) (getMonth h d) (getDate h d)"

text \<open>
  \<open>Math.round((b.getTime() - a.getTime()) / 86400000)\<close>: the nearest integer, a
  half rounding up.
\<close>

definition daysBetween :: "int option \<Rightarrow> int option \<Rightarrow> int option" where
  "daysBetween a b =
     (case (a, b) of
        (Some x, Some y) \<Rightarrow> Some ((2 * (y - x) + msPerDay) div (2 * msPerDay))
      | _ \<Rightarrow> None)"

subsection \<open>Frontmatter values and their coercions\<close>

text \<open>
  A frontmatter value is what the YAML parser of the host hands over: a scalar, a
  list or a mapping, which is a plain object with the listed properties as its
  own. A frontmatter is itself such a mapping. A read of a property finds, besides
  the own properties, what every plain object inherits from \<open>Object.prototype\<close>:
  \<open>JBuiltin k\<close> is the value inherited under the name \<open>k\<close>, a built-in function or,
  under \<open>__proto__\<close>, the prototype itself. No value of a frontmatter is a function,
  so no own property can be called.
\<close>

datatype jsval =
    JUndefined
  | JNull
  | JBool bool
  | JNum jsnum
  | JStr string
  | JArr "jsval list"
  | JObj "(string \<times> jsval) list"
  | JBuiltin string

type_synonym frontmatter = "(string \<times> jsval) list"

datatype error = TypeError

text \<open>The property names of \<open>Object.prototype\<close> (ECMA-262 with its annex B).\<close>

definition Object_prototype_names :: "string list" where
  "Object_prototype_names =
     [''constructor'', ''hasOwnProperty'', ''isPrototypeOf'', ''propertyIsEnumerable'',
      ''toLocaleString'', ''toString'', ''valueOf'', ''__proto__'', ''__defineGetter__'',
      ''__defineSetter__'', ''__lookupGetter__'', ''__lookupSetter__'']"

text \<open>
  The read \<open>fm[k]\<close>: the own property, else the inherited one, else \<open>undefined\<close>.
  The write \<open>fm[k] = v\<close> replaces the own property or adds it; the change of
  prototype that JavaScript makes of a write under the name \<open>__proto__\<close> is not
  modelled.
\<close>

definition field :: "frontmatter \<Rightarrow> string \<Rightarrow> jsval" where
  "field fm k =
     (case map_of fm k of
        Some v \<Rightarrow> v
      | None \<Rightarrow> if k \<in> set Object_prototype_names then JBuiltin k else JUndefined)"

fun set_field :: "string \<Rightarrow> jsval \<Rightarrow> frontmatter \<Rightarrow> frontmatter" where
  "set_field k v [] = [(k, v)]"
| "set_field k v ((k', v') # fm) = (if k' = k then (k, v) # fm else (k', v') # set_field k v fm)"

text \<open>The operator \<open>??\<close>: the right operand replaces \<open>undefined\<close> and \<open>null\<close> only.\<close>

definition nullish :: "jsval \<Rightarrow> jsval \<Rightarrow> jsval" where
  "nullish v dflt = (if v = JUndefined \<or> v = JNull then dflt else v)"

text \<open>The truth value that \<open>!raw\<close> negates.\<close>

fun truthy :: "jsval \<Rightarrow> bool" where
  "truthy JUndefined = False"
| "truthy JNull = False"
| "truthy (JBool b) = b"
| "truthy (JNum n) = (n \<noteq> NaN \<and> n \<noteq> Num 0)"
| "truthy (JStr s) = (s \<noteq> [])"
| "truthy (JArr xs) = True"
| "truthy (JObj kvs) = True"
| "truthy (JBuiltin k) = True"


definition join_comma :: "string list \<Rightarrow> string" where
  "join_comma ss = (case ss of [] \<Rightarrow> [] | t # ts \<Rightarrow> foldl (\<lambda>a b. a @ CHR '','' # b) t ts)"

definition num_to_string :: "host \<Rightarrow> jsnum \<Rightarrow> string" where
  "num_to_string h n =
     (case n of
        NaN \<Rightarrow> ''NaN''
      | PosInf \<Rightarrow> ''Infinity''
      | NegInf \<Rightarrow> ''-Infinity''
      | Num r \<Rightarrow> (if r = of_int \<lfloor>r\<rfloor> \<and> \<bar>r\<bar> < 10 ^ 21 then show_int \<lfloor>r\<rfloor> else fmtNumber h r))"

text \<open>The results of a list of computations, or the first exception among them.\<close>

fun all_of :: "(error + 'a) list \<Rightarrow> error + 'a list" where
  "all_of [] = Inr []"
| "all_of (Inl e # rs) = Inl e"
| "all_of (Inr x # rs) = (case all_of rs of Inl e \<Rightarrow> Inl e | Inr xs \<Rightarrow> Inr (x # xs))"

text \<open>
  \<open>String(v)\<close>. A list prints its elements separated by commas, \<open>undefined\<close> and
  \<open>null\<close> elements as nothing. An object is printed by its \<open>toString\<close> method: a
  mapping without an own property \<open>toString\<close> inherits the one that gives
  \<open>[object Object]\<close>; a mapping with such a property has hidden that method behind a
  value that cannot be called, its \<open>valueOf\<close> gives no primitive value either, and
  the conversion raises a \<open>TypeError\<close>. A built-in function prints as the word
  \<open>function\<close> and what the host adds.
\<close>

fun ToString :: "host \<Rightarrow> jsval \<Rightarrow> error + string" where
  "ToString h JUndefined = Inr ''undefined''"
| "ToString h JNull = Inr ''null''"
| "ToString h (JBool b) = Inr (if b then ''true'' else ''false'')"
| "ToString h (JNum n) = Inr (num_to_string h n)"
| "ToString h (JStr s) = Inr s"
| "ToString h (JArr xs) =
     (case all_of (map (\<lambda>x. if x = JUndefined \<or> x = JNull then Inr [] else ToString h x) xs) of
        Inl e \<Rightarrow> Inl e
      | Inr ss \<Rightarrow> Inr (join_comma ss))"
| "ToString h (JObj kvs) =
     (if map_of kvs ''toString'' \<noteq> None then Inl TypeError else Inr ''[object Object]'')"
| "ToString h (JBuiltin k) =
     Inr (if k = ''__proto__'' then ''[object Object]'' else ''function'' @ nativeSource h k)"

text \<open>
  The numeric literals that \<open>Number\<close> accepts in a string: binary, octal and
  hexadecimal integers without sign, \<open>Infinity\<close>, and decimal literals with an
  optional fraction and exponent. Every other string is \<open>NaN\<close>; the string of
  white space only is 0.
\<close>

definition is_hex :: "char \<Rightarrow> bool" where
  "is_hex c = (is_digit c \<or> (CHR ''a'' \<le> c \<and> c \<le> CHR ''f'') \<or> (CHR ''A'' \<le> c \<and> c \<le> CHR ''F''))"

definition hex_val :: "char \<Rightarrow> int" where
  "hex_val c = (if is_digit c then digit_val c
                else if CHR ''a'' \<le> c then of_char c - 87 else of_char c - 55)"

definition parse_radix :: "int \<Rightarrow> string \<Rightarrow> jsnum" where
  "parse_radix b ds =
     (if ds \<noteq> [] \<and> (\<forall>c \<in> set ds. is_hex c \<and> hex_val c < b)
      then Num (of_int (foldl (\<lambda>a c. b * a + hex_val c) 0 ds)) else NaN)"

definition strip_sign :: "string \<Rightarrow> bool \<times> string" where
  "strip_sign s =
     (if s \<noteq> [] \<and> hd s = CHR ''-'' then (True, tl s)
      else if s \<noteq> [] \<and> hd s = CHR ''+'' then (False, tl s) else (False, s))"

definition parse_exponent :: "string \<Rightarrow> int option" where
  "parse_exponent s =
     (if s = [] then Some 0
      else if hd s = CHR ''e'' \<or> hd s = CHR ''E'' then
        (case strip_sign (tl s) of (neg, ds) \<Rightarrow>
           if ds \<noteq> [] \<and> (\<forall>c \<in> set ds. is_digit c)
           then Some (if neg then - digits_val ds else digits_val ds)
           else None)
      else None)"

definition scale10 :: "rat \<Rightarrow> int \<Rightarrow> rat" where
  "scale10 r e = (if 0 \<le> e then r * 10 ^ nat e else r / 10 ^ nat (- e))"

definition parse_decimal :: "string \<Rightarrow> jsnum" where
  "parse_decimal s =
     (case strip_sign s of (neg, u) \<Rightarrow>
        if u = ''Infinity'' then (if neg then NegInf else PosInf)
        else
          (let ip = takeWhile is_digit u;
               r1 = dropWhile is_digit u;
               dot = (r1 \<noteq> [] \<and> hd r1 = CHR ''.'');
               fp = (if dot then takeWhile is_digit (tl r1) else []);
               r2 = (if dot then dropWhile is_digit (tl r1) else r1)
           in if ip = [] \<and> fp = [] then NaN
              else (case parse_exponent r2 of
                      None \<Rightarrow> NaN
                    | Some e \<Rightarrow>
                        (let m = scale10 (of_int (digits_val (ip @ fp))) (e - int (length fp))
                         in Num (if neg then - m else m)))))"

definition StringToNumber :: "string \<Rightarrow> jsnum" where
  "StringToNumber s =
     (let t = trim s
      in if t = [] then Num 0
         else if take 2 t = ''0x'' \<or> take 2 t = ''0X'' then parse_radix 16 (drop 2 t)
         else if take 2 t = ''0o'' \<or> take 2 t = ''0O'' then parse_radix 8 (drop 2 t)
         else if take 2 t = ''0b'' \<or> take 2 t = ''0B'' then parse_radix 2 (drop 2 t)
         else parse_decimal t)"

text \<open>
  \<open>Number(v)\<close>. The \<open>valueOf\<close> of an object gives no primitive value, so an object
  is first printed as \<open>String\<close> prints it, with the same exception.
\<close>

fun ToNumber :: "host \<Rightarrow> jsval \<Rightarrow> error + jsnum" where
  "ToNumber h JUndefined = Inr NaN"
| "ToNumber h JNull = Inr (Num 0)"
| "ToNumber h (JBool b) = Inr (Num (if b then 1 else 0))"
| "ToNumber h (JNum n) = Inr n"
| "ToNumber h (JStr s) = Inr (StringToNumber s)"
| "ToNumber h v = (case ToString h v of Inl e \<Rightarrow> Inl e | Inr s \<Rightarrow> Inr (StringToNumber s))"

subsection \<open>Settings, files and review notes\<close>

record settings =
  dateProperty :: string
  freqProperty :: string
  upcomingDays :: int
  intervals :: string
  notifyOnStartup :: bool

definition DEFAULT_SETTINGS :: settings where
  "DEFAULT_SETTINGS =
     \<lparr>dateProperty = ''review_next'', freqProperty = ''review_freq'', upcomingDays = 7,
      intervals = ''1, 6, 9, 19, 75'', notifyOnStartup = True\<rparr>"

text \<open>
  A markdown file of the vault with what the metadata cache holds for it: no
  frontmatter at all, or the frontmatter.
\<close>

record tfile =
  basename :: string
  cached :: "frontmatter option"

record ReviewNote =
  noteFile :: tfile
  title :: string
  reviewNext :: "int option"
  reviewFreq :: jsnum
  tags :: "string list"
  daysUntil :: "int option"

subsection \<open>Scanning the vault\<close>

text \<open>
  \<open>(v ?? []).map(String)\<close> for the \<open>tags\<close> property: only a list has a \<open>map\<close>
  method, so on any other value that is neither \<open>undefined\<close> nor \<open>null\<close> the call
  raises a \<open>TypeError\<close>; on a list it raises when \<open>String\<close> raises on an element.
\<close>

definition map_String :: "host \<Rightarrow> jsval \<Rightarrow> error + string list" where
  "map_String h v = (case v of JArr xs \<Rightarrow> all_of (map (ToString h) xs) | _ \<Rightarrow> Inl TypeError)"

text \<open>
  The body of the loop of \<open>scanVault\<close> for one file: \<open>Inr None\<close> is a
  \<open>continue\<close>, \<open>Inr (Some n)\<close> the note that is pushed, \<open>Inl e\<close> an exception.
\<close>

definition scanFile :: "host \<Rightarrow> settings \<Rightarrow> int option \<Rightarrow> tfile \<Rightarrow> error + ReviewNote option" where
  "scanFile h st today' f =
     (case cached f of
        None \<Rightarrow> Inr None
      | Some fm \<Rightarrow>
          (let raw = field fm (dateProperty st)
           in if \<not> truthy raw then Inr None
              else
                (case ToString h raw of
                   Inl e \<Rightarrow> Inl e
                 | Inr s \<Rightarrow>
                     (let reviewNext' = stripTime h (Date_of_string h s)
                      in if reviewNext' = None then Inr None
                         else
                           (case ToNumber h (nullish (field fm (freqProperty st)) (JNum (Num 0))) of
                              Inl e \<Rightarrow> Inl e
                            | Inr reviewFreq' \<Rightarrow>
                                (case map_String h (nullish (field fm ''tags'') (JArr [])) of
                                   Inl e \<Rightarrow> Inl e
                                 | Inr tags' \<Rightarrow>
                                     Inr (Some \<lparr>noteFile = f, title = basename f,
                                                reviewNext = reviewNext', reviewFreq = reviewFreq',
                                                tags = tags',
                                                daysUntil = daysBetween today' reviewNext'\<rparr>)))))))"

text \<open>The loop over the files, with the array \<open>notes\<close> that it fills.\<close>

fun scanFiles ::
  "host \<Rightarrow> settings \<Rightarrow> int option \<Rightarrow> ReviewNote list \<Rightarrow> tfile list \<Rightarrow> error + ReviewNote list" where
  "scanFiles h st today' notes [] = Inr notes"
| "scanFiles h st today' notes (f # fs) =
     (case scanFile h st today' f of
        Inl e \<Rightarrow> Inl e
      | Inr None \<Rightarrow> scanFiles h st today' notes fs
      | Inr (Some n) \<Rightarrow> scanFiles h st today' (notes @ [n]) fs)"

text \<open>
  \<open>Array.prototype.sort\<close> with a comparison function: the sort is stable, and a
  comparison that yields \<open>NaN\<close> counts as 0. For a comparison function that is
  consistent, as the one of \<open>scanVault\<close> is, the result is the one of insertion
  from the right, each element going in front of the first one it is not greater
  than.
\<close>

definition SortCompare :: "('a \<Rightarrow> 'a \<Rightarrow> int option) \<Rightarrow> 'a \<Rightarrow> 'a \<Rightarrow> int" where
  "SortCompare comparefn x y = (case comparefn x y of None \<Rightarrow> 0 | Some v \<Rightarrow> v)"

fun sort_insert :: "('a \<Rightarrow> 'a \<Rightarrow> int option) \<Rightarrow> 'a \<Rightarrow> 'a list \<Rightarrow> 'a list" where
  "sort_insert comparefn x [] = [x]"
| "sort_insert comparefn x (y # ys) =
     (if SortCompare comparefn x y \<le> 0 then x # y # ys else y # sort_insert comparefn x ys)"

fun array_sort :: "('a \<Rightarrow> 'a \<Rightarrow> int option) \<Rightarrow> 'a list \<Rightarrow> 'a list" where
  "array_sort comparefn [] = []"
| "array_sort comparefn (x # xs) = sort_insert comparefn x (array_sort comparefn xs)"

text \<open>The comparison function \<open>(a, b) => a.daysUntil - b.daysUntil\<close>.\<close>

definition byDaysUntil :: "ReviewNote \<Rightarrow> ReviewNote \<Rightarrow> int option" where
  "byDaysUntil a b =
     (case (daysUntil a, daysUntil b) of (Some x, Some y) \<Rightarrow> Some (x - y) | _ \<Rightarrow> None)"

text \<open>\<open>scanVault\<close>, with the clock reading \<open>now\<close> of \<open>new Date()\<close> as an argument.\<close>

definition scanVault :: "host \<Rightarrow> settings \<Rightarrow> int \<Rightarrow> tfile list \<Rightarrow> error + ReviewNote list" where
  "scanVault h st now files =
     (let today' = stripTime h (Some now)
      in case scanFiles h st today' [] files of
           Inl e \<Rightarrow> Inl e
         | Inr notes \<Rightarrow> Inr (array_sort byDaysUntil notes))"

subsection \<open>Bucketing\<close>

record buckets =
  overdue :: "ReviewNote list"
  today :: "ReviewNote list"
  upcoming :: "ReviewNote list"
  later :: "ReviewNote list"

text \<open>Comparisons of a number that may be \<open>NaN\<close> with an integer.\<close>

definition lt_int :: "int option \<Rightarrow> int \<Rightarrow> bool" where
  "lt_int a k = (case a of None \<Rightarrow> False | Some x \<Rightarrow> x < k)"

definition le_int :: "int option \<Rightarrow> int \<Rightarrow> bool" where
  "le_int a k = (case a of None \<Rightarrow> False | Some x \<Rightarrow> x \<le> k)"

definition bucket_push :: "int \<Rightarrow> buckets \<Rightarrow> ReviewNote \<Rightarrow> buckets" where
  "bucket_push threshold b n =
     (if lt_int (daysUntil n) 0 then b\<lparr>overdue := overdue b @ [n]\<rparr>
      else if daysUntil n = Some 0 then b\<lparr>today := today b @ [n]\<rparr>
      else if le_int (daysUntil n) threshold then b\<lparr>upcoming := upcoming b @ [n]\<rparr>
      else b\<lparr>later := later b @ [n]\<rparr>)"

definition bucketize :: "settings \<Rightarrow> ReviewNote list \<Rightarrow> buckets" where
  "bucketize st notes =
     (let threshold = upcomingDays st
      in foldl (bucket_push threshold)
           \<lparr>overdue = [], today = [], upcoming = [], later = []\<rparr> notes)"

subsection \<open>Marking a note as reviewed\<close>

text \<open>
  The dialog and its quick buttons compute a date the same way:
  \<open>const d = new Date(); d.setDate(d.getDate() + days)\<close>, where \<open>days\<close> is
  \<open>undefined\<close> when the interval table has no entry to give.
\<close>

definition dateAfter :: "host \<Rightarrow> int \<Rightarrow> int option \<Rightarrow> int option" where
  "dateAfter h now days =
     setDate h (Some now)
       (case (getDate h (Some now), days) of (Some a, Some b) \<Rightarrow> Some (a + b) | _ \<Rightarrow> None)"

record review =
  newFreq :: jsnum
  interval :: "int option"
  nextDate :: "int option"

text \<open>What \<open>ReviewModal.onOpen\<close> computes before it builds the dialog.\<close>

definition onOpen :: "host \<Rightarrow> settings \<Rightarrow> int \<Rightarrow> ReviewNote \<Rightarrow> review" where
  "onOpen h st now note =
     (let currentFreq = reviewFreq note;
          newFreq' = num_add currentFreq (Num 1);
          intervals' = parseIntervals (intervals st);
          interval' = getInterval intervals' currentFreq;
          nextDate' = dateAfter h now interval'
      in \<lparr>newFreq = newFreq', interval = interval', nextDate = nextDate'\<rparr>)"

definition quickOptions :: "int list" where
  "quickOptions = [1, 3, 7, 14, 30, 90]"

text \<open>
  A quick button with \<open>days\<close> on it: the date and the level it hands to
  \<open>applyReview\<close>. The date is computed from the clock when the button is
  pressed; the level is the one \<open>onOpen\<close> computed, which does not depend on the
  clock.
\<close>

definition quickPick :: "host \<Rightarrow> settings \<Rightarrow> int \<Rightarrow> ReviewNote \<Rightarrow> int \<Rightarrow> int option \<times> jsnum" where
  "quickPick h st now note days = (dateAfter h now (Some days), newFreq (onOpen h st now note))"

text \<open>The two writes of \<open>applyReview\<close> to the frontmatter of the note.\<close>

definition applyReview :: "host \<Rightarrow> settings \<Rightarrow> frontmatter \<Rightarrow> int option \<Rightarrow> jsnum \<Rightarrow> frontmatter" where
  "applyReview h st fm nextDate' newFreq' =
     set_field (dateProperty st) (JStr (toDateString h nextDate'))
       (set_field (freqProperty st) (JNum newFreq') fm)"

subsection \<open>Sample hosts and files\<close>

text \<open>
  A host at a fixed offset from UTC whose date parser knows the calendar date
  format only, and which prints a built-in function with its property name.
\<close>

definition host_at :: "int \<Rightarrow> host" where
  "host_at off =
     \<lparr>tzOffset = off, legacyParse = (\<lambda>s. None), fmtNumber = (\<lambda>r. []),
      nativeSource = (\<lambda>k. '' '' @ k @ ''() { [native code] }'')\<rparr>"

text \<open>A file whose frontmatter has the given properties.\<close>

definition file_with :: "string \<Rightarrow> (string \<times> jsval) list \<Rightarrow> tfile" where
  "file_with name kvs = \<lparr>basename = name, cached = Some kvs\<rparr>"

text \<open>
  A clock reading (18:00 UTC on 2025-03-01) and a small vault: two notes due on
  the same day, an earlier one, and two files without a usable date.
\<close>

definition sample_now :: int where
  "sample_now = 1740852000000"

definition sample_files :: "tfile list" where
  "sample_files =
     [file_with ''a'' [(''review_next'', JStr ''2025-03-05''), (''review_freq'', JStr ''abc'')],
      file_with ''b'' [(''review_next'', JStr ''2025-02-20''), (''tags'', JArr [JStr ''x'', JNum (Num 3)])],
      file_with ''c'' [(''review_next'', JStr ''not-a-date'')],
      file_with ''d'' [(''review_freq'', JNum (Num 2))],
      file_with ''e'' [(''review_next'', JStr ''2025-03-05''), (''review_freq'', JNum (Num 2))]]"

text \<open>
  The notes of the files in the order of the files: what the loop of \<open>scanVault\<close>
  has pushed when no file raised.
\<close>

definition encountered :: "host \<Rightarrow> settings \<Rightarrow> int option \<Rightarrow> tfile list \<Rightarrow> ReviewNote list" where
  "encountered h st today' files =
     concat (map (\<lambda>f. case scanFile h st today' f of Inr (Some n) \<Rightarrow> [n] | _ \<Rightarrow> []) files)"

text \<open>A note that is due in the given number of days.\<close>

definition note_due :: "string \<Rightarrow> int \<Rightarrow> ReviewNote" where
  "note_due name d =
     \<lparr>noteFile = \<lparr>basename = name, cached = None\<rparr>, title = name, reviewNext = Some 0,
      reviewFreq = Num 0, tags = [], daysUntil = Some d\<rparr>"

section \<open>Properties\<close>

subsection \<open>Auxiliary facts on strings and the table\<close>

lemma split_comma_nonempty: "split_comma s \<noteq> []"
  by (induction s) (auto split: list.splits)

lemma split_comma_append:
  "split_comma (a @ CHR '','' # b) = split_comma a @ split_comma b"
proof (induction a)
  case Nil
  then show ?case by simp
next
  case (Cons c a)
  then show ?case using split_comma_nonempty [of a]
    by (cases "split_comma a") (auto split: list.splits)
qed

lemma split_comma_single: "CHR '','' \<notin> set t \<Longrightarrow> split_comma t = [t]"
  by (induction t) auto

lemma keep_interval_pos: "keep_interval n \<Longrightarrow> 0 < the n"
  by (cases n) (auto simp: keep_interval_def)

lemma parseIntervals_pos: "k \<in> set (parseIntervals raw) \<Longrightarrow> 0 < k"
  by (auto simp: parseIntervals_def keep_interval_pos)

lemma parseIntervals_append:
  "parseIntervals (a @ CHR '','' # b) = parseIntervals a @ parseIntervals b"
  by (simp add: parseIntervals_def split_comma_append)

lemma parseIntervals_single:
  "CHR '','' \<notin> set t \<Longrightarrow>
   parseIntervals t = (case parseInt (trim t) of None \<Rightarrow> [] | Some k \<Rightarrow> if 0 < k then [k] else [])"
  by (simp add: parseIntervals_def split_comma_single keep_interval_def split: option.splits)

lemma parseIntervals_empty_iff:
  "parseIntervals raw = [] \<longleftrightarrow> (\<forall>t \<in> set (split_comma raw). \<not> keep_interval (parseInt (trim t)))"
  by (auto simp: parseIntervals_def filter_empty_conv)

lemma digit_not_ws: "is_digit c \<Longrightarrow> \<not> is_ws c"
  by (auto simp: is_digit_def is_ws_def)

lemma digit_not_sign: "is_digit c \<Longrightarrow> c \<noteq> CHR ''+'' \<and> c \<noteq> CHR ''-''"
  by (auto simp: is_digit_def)

lemma trim_padded:
  assumes "\<forall>c\<in>set pre. is_ws c" "\<forall>c\<in>set post. is_ws c" "ds \<noteq> []"
    "\<not> is_ws (hd ds)" "\<not> is_ws (last ds)"
  shows "trim (pre @ ds @ post) = ds"
proof -
  obtain d ds' where ds: "ds = d # ds'" using assms(3) by (cases ds) auto
  have "dropWhile is_ws (pre @ ds @ post) = dropWhile is_ws (ds @ post)"
    using assms(1) by (intro dropWhile_append2) simp
  then have front: "dropWhile is_ws (pre @ ds @ post) = ds @ post"
    using assms(4) ds by simp
  obtain e ds'' where ds2: "ds = ds'' @ [e]" using assms(3) by (cases ds rule: rev_cases) auto
  have "dropWhile is_ws (rev post @ e # rev ds'') = dropWhile is_ws (e # rev ds'')"
    using assms(2) by (intro dropWhile_append2) simp
  then have "dropWhile is_ws (rev post @ e # rev ds'') = e # rev ds''"
    using assms(5) ds2 by simp
  then have "dropWhile is_ws (rev (ds @ post)) = rev ds"
    using ds2 by simp
  then show ?thesis using front by (simp add: trim_def)
qed

lemma parseInt_digits:
  assumes "ds \<noteq> []" "\<forall>c\<in>set ds. is_digit c" "rest = [] \<or> \<not> is_digit (hd rest)"
  shows "parseInt (ds @ rest) = Some (digits_val ds)"
proof -
  obtain d ds' where ds: "ds = d # ds'" using assms by (cases ds) auto
  have tw: "takeWhile is_digit (ds @ rest) = ds"
    using assms by (cases rest) (auto simp: takeWhile_eq_all_conv takeWhile_append2 takeWhile_tail)
  have d: "is_digit d" using assms ds by simp
  show ?thesis
    using assms tw d digit_not_ws[OF d] digit_not_sign[OF d] ds
    by (auto simp: parseInt_def Let_def)
qed

lemma parseInt_None_iff:
  "parseInt s = None \<longleftrightarrow>
     (let s1 = dropWhile is_ws s;
          s2 = (if s1 \<noteq> [] \<and> (hd s1 = CHR ''+'' \<or> hd s1 = CHR ''-'') then tl s1 else s1)
      in s2 = [] \<or> \<not> is_digit (hd s2))"
  by (auto simp: parseInt_def Let_def takeWhile_eq_Nil_iff)

lemma getInterval_empty: "getInterval [] level = Some 1"
  by (simp add: getInterval_def)

lemma getInterval_inside:
  "0 \<le> k \<Longrightarrow> k < int (length table) \<Longrightarrow> getInterval table (Num (of_int k)) = Some (table ! nat k)"
  by (auto simp: getInterval_def)

lemma array_get_last: "table \<noteq> [] \<Longrightarrow> array_get table (Num (of_nat (length table - 1))) = Some (last table)"
  by (simp add: last_conv_nth)

lemma getInterval_clamp:
  "table \<noteq> [] \<Longrightarrow> \<not> num_lt level (Num (of_nat (length table))) \<Longrightarrow> getInterval table level = Some (last table)"
  using array_get_last [of table] by (simp add: getInterval_def)

lemma getInterval_neg:
  "table \<noteq> [] \<Longrightarrow> num_lt level (Num 0) \<Longrightarrow> getInterval table level = None"
  by (cases level) (auto simp: getInterval_def)

lemma getInterval_nonneg:
  "table \<noteq> [] \<Longrightarrow> 0 \<le> k \<Longrightarrow> \<exists>x\<in>set table. getInterval table (Num (of_int k)) = Some x"
  using getInterval_inside [of k table] getInterval_clamp [of table "Num (of_int k)"]
  by (cases "k < int (length table)") (auto)

subsection \<open>The interval table\<close>

text \<open>
  Claim C2. On the empty table \<open>getInterval\<close> gives 1 for every level, \<open>NaN\<close>
  included. On a table of length \<open>L > 0\<close> it gives \<open>table[level]\<close> for an integer
  level from 0 to \<open>L - 1\<close> and the last element for every level from \<open>L\<close> on,
  without bound (the infinite level too). For the table that \<open>parseIntervals\<close>
  reads from \<open>"1, 6, 9, 19, 75"\<close> the levels 0, 3 and 10 give 1, 19 and 75.
\<close>

theorem getInterval_lookup:
  "getInterval [] level = Some 1
   \<and> (table \<noteq> [] \<longrightarrow> 0 \<le> k \<longrightarrow> k < int (length table) \<longrightarrow>
        getInterval table (Num (of_int k)) = Some (table ! nat k))
   \<and> (table \<noteq> [] \<longrightarrow> of_nat (length table) \<le> r \<longrightarrow>
        getInterval table (Num r) = Some (last table))
   \<and> (table \<noteq> [] \<longrightarrow> getInterval table PosInf = Some (last table))
   \<and> getInterval (parseIntervals ''1, 6, 9, 19, 75'') (Num 0) = Some 1
   \<and> getInterval (parseIntervals ''1, 6, 9, 19, 75'') (Num 3) = Some 19
   \<and> getInterval (parseIntervals ''1, 6, 9, 19, 75'') (Num 10) = Some 75"
proof -
  have table: "parseIntervals ''1, 6, 9, 19, 75'' = [1, 6, 9, 19, 75]"
    by code_simp
  have inside: "table \<noteq> [] \<longrightarrow> 0 \<le> k \<longrightarrow> k < int (length table) \<longrightarrow>
        getInterval table (Num (of_int k)) = Some (table ! nat k)"
    by (simp add: getInterval_inside)
  have beyond: "table \<noteq> [] \<longrightarrow> of_nat (length table) \<le> r \<longrightarrow>
        getInterval table (Num r) = Some (last table)"
    by (simp add: getInterval_clamp)
  have inf: "table \<noteq> [] \<longrightarrow> getInterval table PosInf = Some (last table)"
    by (simp add: getInterval_clamp)
  have ex: "getInterval [1, 6, 9, 19, 75] (Num 0) = Some 1"
    "getInterval [1, 6, 9, 19, 75] (Num 3) = Some 19"
    "getInterval [1, 6, 9, 19, 75] (Num 10) = Some 75"
    by (simp_all add: getInterval_def)
  show ?thesis
    unfolding table by (intro conjI getInterval_empty inside beyond inf ex)
qed

theorem getInterval_lookup_witness:
  "getInterval [] NaN = Some 1
   \<and> getInterval [4, 8] (Num 1) = Some 8
   \<and> getInterval [4, 8] (Num (7 / 2)) = Some 8
   \<and> getInterval [4, 8] PosInf = Some 8"
  using getInterval_lookup [of NaN "[4, 8]" 1 "7 / 2"] by simp

text \<open>
  Claim C10. The test \<open>level < intervals.length\<close> does not keep a negative level
  away from the array read: on a table that is not empty every negative level
  (negative infinity too) reads outside the array and \<open>getInterval\<close> gives
  \<open>undefined\<close>, no element of the table; for an integer level that is not negative
  the result is an element of the table.
\<close>

theorem getInterval_negative_level:
  assumes "table \<noteq> []"
  shows "(num_lt level (Num 0) \<longrightarrow> getInterval table level = None)
       \<and> (0 \<le> k \<longrightarrow> (\<exists>x\<in>set table. getInterval table (Num (of_int k)) = Some x))"
  using assms getInterval_neg [of table level] getInterval_nonneg [of table k] by blast

theorem getInterval_negative_level_witness:
  "getInterval [4, 8] (Num (- 1)) = None
   \<and> (\<exists>x\<in>set [4, 8]. getInterval [4, 8] (Num 5) = Some x)"
  using getInterval_negative_level [of "[4, 8]" "Num (- 1)" 5] by simp

text \<open>
  Claim C9. \<open>parseIntervals\<close> never fails (it is a total function) and works
  token by token: the result for \<open>a,b\<close> is the result for \<open>a\<close> followed by the
  result for \<open>b\<close>; a token without a comma gives the integer that \<open>parseInt\<close>
  reads from the trimmed token when that is positive, and nothing when
  \<open>parseInt\<close> reads no integer or one that is not positive. White space around a
  run of digits is trimmed away and the digits are read as their decimal value;
  \<open>parseInt\<close> reads nothing exactly when no digit follows the leading white space
  and the optional sign. Hence every element of the result is positive, and the
  result is empty exactly when no token survives.
\<close>

theorem parseIntervals_tokens:
  "parseIntervals (a @ CHR '','' # b) = parseIntervals a @ parseIntervals b
   \<and> (CHR '','' \<notin> set t \<longrightarrow>
        parseIntervals t =
          (case parseInt (trim t) of None \<Rightarrow> [] | Some k \<Rightarrow> if 0 < k then [k] else []))
   \<and> ((\<forall>c\<in>set pre. is_ws c) \<and> (\<forall>c\<in>set post. is_ws c) \<and> ds \<noteq> [] \<and> (\<forall>c\<in>set ds. is_digit c) \<longrightarrow>
        trim (pre @ ds @ post) = ds \<and> parseInt ds = Some (digits_val ds))
   \<and> (parseInt s = None \<longleftrightarrow>
        (let s1 = dropWhile is_ws s;
             s2 = (if s1 \<noteq> [] \<and> (hd s1 = CHR ''+'' \<or> hd s1 = CHR ''-'') then tl s1 else s1)
         in s2 = [] \<or> \<not> is_digit (hd s2)))
   \<and> (\<forall>k\<in>set (parseIntervals raw). 0 < k)
   \<and> (parseIntervals raw = [] \<longleftrightarrow>
        (\<forall>t\<in>set (split_comma raw). \<not> keep_interval (parseInt (trim t))))"
proof -
  have digits: "(\<forall>c\<in>set pre. is_ws c) \<and> (\<forall>c\<in>set post. is_ws c) \<and> ds \<noteq> [] \<and> (\<forall>c\<in>set ds. is_digit c) \<longrightarrow>
        trim (pre @ ds @ post) = ds \<and> parseInt ds = Some (digits_val ds)"
  proof (intro impI, elim conjE)
    assume a: "\<forall>c\<in>set pre. is_ws c" "\<forall>c\<in>set post. is_ws c" "ds \<noteq> []" "\<forall>c\<in>set ds. is_digit c"
    then have "\<not> is_ws (hd ds)" "\<not> is_ws (last ds)"
      by (simp_all add: digit_not_ws)
    then have "trim (pre @ ds @ post) = ds"
      using a trim_padded by blast
    moreover have "parseInt ds = Some (digits_val ds)"
      using parseInt_digits [of ds "[]"] a by simp
    ultimately show "trim (pre @ ds @ post) = ds \<and> parseInt ds = Some (digits_val ds)"
      by simp
  qed
  have single: "CHR '','' \<notin> set t \<longrightarrow>
        parseIntervals t =
          (case parseInt (trim t) of None \<Rightarrow> [] | Some k \<Rightarrow> if 0 < k then [k] else [])"
    by (simp add: parseIntervals_single)
  have pos: "\<forall>k\<in>set (parseIntervals raw). 0 < k"
    by (simp add: parseIntervals_pos)
  show ?thesis
    using parseIntervals_append [of a b] single digits parseInt_None_iff [of s] pos
      parseIntervals_empty_iff [of raw]
    by (intro conjI)
qed

theorem parseIntervals_tokens_witness:
  "parseIntervals ''1, x,-3, 6'' = parseIntervals ''1, x'' @ parseIntervals ''-3, 6''
   \<and> parseIntervals '' 12abc'' = [12]
   \<and> trim ''  75 '' = ''75'' \<and> parseInt ''75'' = Some 75
   \<and> parseInt ''x1'' = None
   \<and> parseIntervals ''x,0,-1'' = []"
proof -
  have 1: "parseInt (trim '' 12abc'') = Some 12" by code_simp
  have 2: "digits_val ''75'' = 75" by code_simp
  have 3: "dropWhile is_ws ''x1'' = ''x1''" "\<not> is_digit (CHR ''x'')" by code_simp+
  have 4: "split_comma ''x,0,-1'' = [''x'', ''0'', ''-1'']" 
    "\<not> keep_interval (parseInt (trim ''x''))" "\<not> keep_interval (parseInt (trim ''0''))"
    "\<not> keep_interval (parseInt (trim ''-1''))" by code_simp+
  have 5: "\<forall>c\<in>set ''  ''. is_ws c" "\<forall>c\<in>set '' ''. is_ws c" "\<forall>c\<in>set ''75''. is_digit c"
    by code_simp+
  show ?thesis
    using parseIntervals_tokens [of "''1, x''" "''-3, 6''" "'' 12abc''" "''  ''" "'' ''" "''75''" "''x1''" "''x,0,-1''"]
      1 2 3 4 5
    by simp
qed

subsection \<open>Dates\<close>

text \<open>The day number of 1 January is the \<open>DayFromYear\<close> of ECMA-262.\<close>

lemma DayFromYear_civil: "days_from_civil y 1 1 = DayFromYear y"
proof -
  define e r where "e = (y - 1) div 400" and "r = (y - 1) mod 400"
  have y: "y = 400 * e + r + 1" and r: "0 \<le> r" "r < 400"
    by (simp_all add: e_def r_def)
  have 1: "(y - 1969) div 4 = 100 * e + r div 4 - 492"
    unfolding y by linarith
  have 2: "(y - 1901) div 100 = 4 * e + r div 100 - 19"
    unfolding y by linarith
  have 3: "(y - 1601) div 400 = e - 4"
    unfolding y using r by linarith
  show ?thesis
    unfolding DayFromYear_def 1 2 3
    by (simp add: days_from_civil_def Let_def e_def [symmetric] r_def [symmetric]) (simp add: y)
qed

lemma year_of_era_split:
  assumes "0 \<le> doe" "doe < 146097"
  obtains yoe doy where "year_of_era doe = (yoe, doy)" "0 \<le> yoe" "yoe < 400" "0 \<le> doy" "doy \<le> 365"
    "doe = yoe * 365 + yoe div 4 - yoe div 100 + doy"
proof -
  define c where "c = min 3 (doe div 36524)"
  define doc where "doc = doe - c * 36524"
  define q where "q = doc div 1461"
  define doq where "doq = doc mod 1461"
  define a where "a = min 3 (doq div 365)"
  define doy where "doy = doq - a * 365"
  define yoe where "yoe = c * 100 + q * 4 + a"
  have eq: "year_of_era doe = (yoe, doy)"
    by (simp only: year_of_era_def Let_def yoe_def doy_def a_def doq_def q_def doc_def c_def)
  have c: "0 \<le> c" "c \<le> 3"
    using assms(1) by (simp_all add: c_def)
  have doc: "0 \<le> doc" "doc \<le> 36524"
    using assms(1,2) unfolding doc_def c_def by (simp_all add: min_def) linarith+
  have q: "0 \<le> q" "q \<le> 24"
    using doc unfolding q_def by linarith+
  have doq: "0 \<le> doq" "doq < 1461" "doc = q * 1461 + doq"
    unfolding doq_def q_def by simp_all
  have a: "0 \<le> a" "a \<le> 3"
    using doq(1) by (simp_all add: a_def)
  have doy: "0 \<le> doy" "doy \<le> 365"
    using doq(1,2) unfolding doy_def a_def by (simp_all add: min_def) linarith+
  have d4: "yoe div 4 = c * 25 + q"
    unfolding yoe_def using a by linarith
  have d100: "yoe div 100 = c"
    unfolding yoe_def using a q by linarith
  have "doe = c * 36524 + q * 1461 + a * 365 + doy"
    using doq(3) unfolding doc_def doy_def by simp
  then have sum: "doe = yoe * 365 + yoe div 4 - yoe div 100 + doy"
    unfolding d4 d100 unfolding yoe_def by simp
  have yoe: "0 \<le> yoe" "yoe < 400"
    unfolding yoe_def using c q a by linarith+
  show ?thesis
    using that [OF eq yoe doy sum] .
qed

lemma month_split:
  fixes doy :: int
  assumes "0 \<le> doy" "doy \<le> 365"
  shows "0 \<le> (5 * doy + 2) div 153 \<and> (5 * doy + 2) div 153 \<le> 11"
  using assms by linarith

text \<open>
  The year, month and day of a day number name that day: \<open>MakeDay\<close> takes the
  date fields of a time value back to its day.
\<close>

lemma days_from_civil_fields:
  obtains y m d where "civil_from_days z = (y, m, d)" "1 \<le> m" "m \<le> 12"
    "days_from_civil y m 1 + d - 1 = z"
proof -
  define z1 where "z1 = z + 719468"
  define era where "era = z1 div 146097"
  define doe where "doe = z1 mod 146097"
  have doe: "0 \<le> doe" "doe < 146097"
    by (simp_all add: doe_def)
  obtain yoe doy where ye: "year_of_era doe = (yoe, doy)"
    and yoe: "0 \<le> yoe" "yoe < 400" and doy: "0 \<le> doy" "doy \<le> 365"
    and sum: "doe = yoe * 365 + yoe div 4 - yoe div 100 + doy"
    using year_of_era_split [OF doe] by blast
  define mp where "mp = (5 * doy + 2) div 153"
  define d where "d = doy - (153 * mp + 2) div 5 + 1"
  define m where "m = (if mp < 10 then mp + 3 else mp - 9)"
  define y where "y = yoe + era * 400 + (if m \<le> 2 then 1 else 0)"
  have cfd: "civil_from_days z = (y, m, d)"
    by (simp only: civil_from_days_def Let_def z1_def [symmetric] doe_def [symmetric]
        era_def [symmetric] ye prod.case mp_def [symmetric] d_def [symmetric] m_def [symmetric]
        y_def [symmetric])
  have mp: "0 \<le> mp" "mp \<le> 11"
    using month_split [OF doy] by (simp_all add: mp_def)
  have m: "1 \<le> m" "m \<le> 12"
    using mp by (simp_all add: m_def)
  have mpm: "(if 2 < m then m - 3 else m + 9) = mp"
    using mp by (simp add: m_def)
  have y1: "(if m \<le> 2 then y - 1 else y) = era * 400 + yoe"
    by (simp add: y_def)
  have e: "(era * 400 + yoe) div 400 = era" "(era * 400 + yoe) mod 400 = yoe"
    using yoe by simp_all
  have "z1 = era * 146097 + doe"
    unfolding era_def doe_def by simp
  then have z: "z = era * 146097 + doe - 719468"
    by (simp add: z1_def)
  have "days_from_civil y m 1 + d - 1 =
      era * 146097 + (yoe * 365 + yoe div 4 - yoe div 100 + ((153 * mp + 2) div 5 + 1 - 1)) - 719468 + d - 1"
    by (simp only: days_from_civil_def Let_def y1 mpm e)
  also have "\<dots> = z"
    unfolding z sum d_def by simp
  finally show ?thesis
    using that [OF cfd m] by simp
qed

lemma MakeDay_of_fields:
  "MakeDay (YearFromTime t) (MonthFromTime t) (DateFromTime t) = Day t"
proof -
  obtain y m d where cfd: "civil_from_days (Day t) = (y, m, d)"
    and m: "1 \<le> m" "m \<le> 12" and rt: "days_from_civil y m 1 + d - 1 = Day t"
    using days_from_civil_fields [of "Day t"] by blast
  have "(m - 1) div 12 = 0" "(m - 1) mod 12 = m - 1"
    using m by simp_all
  then show ?thesis
    using rt by (simp add: MakeDay_def YearFromTime_def MonthFromTime_def DateFromTime_def cfd Let_def)
qed

lemma year_after_1600:
  assumes "0 \<le> z"
  shows "1600 \<le> fst (civil_from_days z)"
proof -
  define z1 where "z1 = z + 719468"
  define era where "era = z1 div 146097"
  define doe where "doe = z1 mod 146097"
  have doe: "0 \<le> doe" "doe < 146097"
    by (simp_all add: doe_def)
  obtain yoe doy where ye: "year_of_era doe = (yoe, doy)" and yoe: "0 \<le> yoe"
    using year_of_era_split [OF doe] by blast
  have era: "4 \<le> era"
    using assms unfolding era_def z1_def by linarith
  have "fst (civil_from_days z) =
      yoe + era * 400 + (if (if (5 * doy + 2) div 153 < 10 then (5 * doy + 2) div 153 + 3
         else (5 * doy + 2) div 153 - 9) \<le> 2 then 1 else 0)"
    by (simp only: civil_from_days_def Let_def z1_def [symmetric] doe_def [symmetric]
        era_def [symmetric] ye prod.case fst_conv)
  then show ?thesis
    using era yoe by simp
qed

lemma toDateString_same_day:
  "Day (LocalTime h a) = Day (LocalTime h b) \<Longrightarrow> toDateString h (Some a) = toDateString h (Some b)"
  by (simp add: toDateString_def getFullYear_def getMonth_def getDate_def
      YearFromTime_def MonthFromTime_def DateFromTime_def)

lemma MakeDay_carry: "MakeDay y m (dt + d) = MakeDay y m dt + d"
  by (simp add: MakeDay_def Let_def)

lemma TimeWithinDay_range: "0 \<le> TimeWithinDay t \<and> TimeWithinDay t < msPerDay"
  by (simp add: TimeWithinDay_def msPerDay_def)

lemma Day_TimeWithinDay: "Day t * msPerDay + TimeWithinDay t = t"
  by (simp add: Day_def TimeWithinDay_def)

lemma Day_shift: "Day (t + d * msPerDay) = Day t + d"
  by (simp add: Day_def msPerDay_def)

lemma TimeWithinDay_shift: "TimeWithinDay (t + d * msPerDay) = TimeWithinDay t"
  by (simp add: TimeWithinDay_def)

lemma Day_nonneg: "0 \<le> t \<Longrightarrow> 0 \<le> Day t"
  by (simp add: Day_def msPerDay_def pos_imp_zdiv_nonneg_iff)

lemma YearFromTime_after_1600: "0 \<le> t \<Longrightarrow> 1600 \<le> YearFromTime t"
  unfolding YearFromTime_def by (intro year_after_1600 Day_nonneg)

text \<open>\<open>stripTime\<close> gives the local midnight of the day.\<close>

lemma stripTime_midnight:
  assumes "0 \<le> LocalTime h t"
  shows "stripTime h (Some t) = TimeClip (t - TimeWithinDay (LocalTime h t))"
proof -
  let ?lt = "LocalTime h t"
  have y: "\<not> (0 \<le> YearFromTime ?lt \<and> YearFromTime ?lt \<le> 99)"
    using YearFromTime_after_1600 [OF assms] by simp
  have "UTC h (Day ?lt * msPerDay) = t - TimeWithinDay ?lt"
    using Day_TimeWithinDay [of ?lt] by (simp add: UTC_def LocalTime_def)
  then show ?thesis
    using y
    by (auto simp: stripTime_def getFullYear_def getMonth_def getDate_def Date3_def Let_def
        MakeDate_def MakeDay_of_fields)
qed

lemma dateAfter_days:
  assumes "0 \<le> now" "0 \<le> d" "now + d * msPerDay \<le> 8640000000000000"
  shows "dateAfter h now (Some d) = Some (now + d * msPerDay)"
proof -
  let ?lt = "LocalTime h now"
  have "MakeDate (Day ?lt + d) (TimeWithinDay ?lt) = ?lt + d * msPerDay"
    using Day_TimeWithinDay [of ?lt] by (simp add: MakeDate_def algebra_simps)
  then have "UTC h (MakeDate (Day ?lt + d) (TimeWithinDay ?lt)) = now + d * msPerDay"
    by (simp add: UTC_def LocalTime_def)
  moreover have "0 \<le> d * msPerDay"
    using assms(2) by (simp add: msPerDay_def)
  then have "\<bar>now + d * msPerDay\<bar> \<le> 8640000000000000"
    using assms(1,3) by linarith
  ultimately show ?thesis
    by (simp add: dateAfter_def setDate_def getDate_def Let_def MakeDay_carry MakeDay_of_fields
        TimeClip_def)
qed

lemma set_field_other: "k' \<noteq> k \<Longrightarrow> map_of (set_field k v fm) k' = map_of fm k'"
  by (induction fm) auto

lemma set_field_same: "map_of (set_field k v fm) k = Some v"
  by (induction fm) auto


text \<open>
  Claim C3. The claim is that a date written by \<open>toDateString\<close> and read back as
  \<open>scanVault\<close> reads it, \<open>stripTime(new Date(s))\<close>, is the day it was written for.
  \<open>toDateString\<close> prints the local day, but \<open>new Date(s)\<close> reads a calendar date as
  midnight UTC, which west of Greenwich is still the evening before: on a host five
  hours behind UTC the local midnight of 1 March 2025 is written as \<open>2025-03-01\<close>
  and read back as the local midnight of 28 February.
\<close>

theorem date_round_trip_west_of_utc:
  "toDateString (host_at (- 300)) (Some 1740805200000) = ''2025-03-01''
   \<and> stripTime (host_at (- 300)) (Some 1740805200000) = Some 1740805200000
   \<and> stripTime (host_at (- 300))
        (Date_of_string (host_at (- 300)) (toDateString (host_at (- 300)) (Some 1740805200000)))
      = Some 1740718800000
   \<and> toDateString (host_at (- 300)) (Some 1740718800000) = ''2025-02-28''"
  by code_simp

text \<open>
  East of Greenwich the same round trip gives the day back: one hour ahead of UTC,
  the local midnight of 1 March 2025 is read back as itself.
\<close>

lemma date_round_trip_east_of_utc:
  "toDateString (host_at 60) (Some 1740783600000) = ''2025-03-01''
   \<and> stripTime (host_at 60) (Some 1740783600000) = Some 1740783600000
   \<and> stripTime (host_at 60)
        (Date_of_string (host_at 60) (toDateString (host_at 60) (Some 1740783600000)))
      = Some 1740783600000"
  by code_simp

text \<open>
  Claim C5. The dialog hands \<open>applyReview\<close> the level plus one and the date
  \<open>d\<close> days after the clock reading, for a quick button with \<open>d\<close> on it and for
  the suggested date when the interval table gives \<open>d\<close>. That date keeps the time
  of day of the clock; normalised by \<open>stripTime\<close> it is \<open>stripTime(now)\<close> plus
  \<open>d\<close> days, and \<open>toDateString\<close> prints it as it prints \<open>stripTime(now)\<close> plus
  \<open>d\<close> days: as a calendar date, which is what is written back, it is today plus
  \<open>d\<close> days. The clock is taken after 1970, in UTC and in local time, and \<open>d\<close>
  days before the end of the time range. \<open>onOpen\<close> itself only computes; the
  writing is done by \<open>applyReview\<close>, which sets the date property to the printed
  date and the level property to the new level and leaves every other property
  as it is.
\<close>

theorem review_advance:
  assumes "0 \<le> now" and "0 \<le> LocalTime h now" and "0 \<le> d"
    and "now + d * msPerDay \<le> 8640000000000000"
  shows "newFreq (onOpen h st now note) = num_add (reviewFreq note) (Num 1)
       \<and> (reviewFreq note = Num k \<longrightarrow> newFreq (onOpen h st now note) = Num (k + 1))
       \<and> (getInterval (parseIntervals (intervals st)) (reviewFreq note) = Some d \<longrightarrow>
            nextDate (onOpen h st now note) = Some (now + d * msPerDay))
       \<and> quickPick h st now note d = (Some (now + d * msPerDay), num_add (reviewFreq note) (Num 1))
       \<and> stripTime h (Some now) = Some (now - TimeWithinDay (LocalTime h now))
       \<and> stripTime h (Some (now + d * msPerDay)) =
            Some (now - TimeWithinDay (LocalTime h now) + d * msPerDay)
       \<and> toDateString h (Some (now + d * msPerDay)) =
            toDateString h (Some (now - TimeWithinDay (LocalTime h now) + d * msPerDay))
       \<and> map_of (applyReview h st fm (Some t1) lv) (dateProperty st) = Some (JStr (toDateString h (Some t1)))
       \<and> (freqProperty st \<noteq> dateProperty st \<longrightarrow>
            map_of (applyReview h st fm (Some t1) lv) (freqProperty st) = Some (JNum lv))
       \<and> (p \<noteq> dateProperty st \<and> p \<noteq> freqProperty st \<longrightarrow>
            map_of (applyReview h st fm (Some t1) lv) p = map_of fm p)"
proof -
  let ?lt = "LocalTime h now"
  let ?tod = "TimeWithinDay ?lt"
  have after: "dateAfter h now (Some d) = Some (now + d * msPerDay)"
    using dateAfter_days [OF assms(1,3,4)] .
  have lvl: "newFreq (onOpen h st now note) = num_add (reviewFreq note) (Num 1)"
    by (simp add: onOpen_def Let_def)
  have lvk: "reviewFreq note = Num k \<longrightarrow> newFreq (onOpen h st now note) = Num (k + 1)"
    by (simp add: onOpen_def Let_def)
  have sug: "getInterval (parseIntervals (intervals st)) (reviewFreq note) = Some d \<longrightarrow>
      nextDate (onOpen h st now note) = Some (now + d * msPerDay)"
    using after by (simp add: onOpen_def Let_def)
  have quick: "quickPick h st now note d = (Some (now + d * msPerDay), num_add (reviewFreq note) (Num 1))"
    using after lvl by (simp add: quickPick_def)
  have tod: "0 \<le> ?tod" "?tod < msPerDay"
    using TimeWithinDay_range [of ?lt] by simp_all
  have dm: "0 \<le> d * msPerDay" "(0::int) < msPerDay"
    using assms(3) by (simp_all add: msPerDay_def)
  have m: "msPerDay \<le> 8640000000000000"
    by (simp add: msPerDay_def)
  have "\<bar>now - ?tod\<bar> \<le> 8640000000000000"
    using assms(1,4) tod dm m by linarith
  then have c0: "TimeClip (now - ?tod) = Some (now - ?tod)"
    by (simp add: TimeClip_def)
  have today: "stripTime h (Some now) = Some (now - ?tod)"
    using stripTime_midnight [OF assms(2)] c0 by simp
  have l1: "LocalTime h (now + d * msPerDay) = ?lt + d * msPerDay"
    by (simp add: LocalTime_def)
  have "0 \<le> LocalTime h (now + d * msPerDay)"
    unfolding l1 using assms(2) dm by simp
  then have "stripTime h (Some (now + d * msPerDay)) = TimeClip (now + d * msPerDay - ?tod)"
    using stripTime_midnight [of h "now + d * msPerDay"] by (simp add: l1 TimeWithinDay_shift)
  moreover have "\<bar>now + d * msPerDay - ?tod\<bar> \<le> 8640000000000000"
    using assms(1,4) tod dm m by linarith
  then have "TimeClip (now + d * msPerDay - ?tod) = Some (now - ?tod + d * msPerDay)"
    by (simp add: TimeClip_def)
  ultimately have due: "stripTime h (Some (now + d * msPerDay)) = Some (now - ?tod + d * msPerDay)"
    by simp
  have "LocalTime h (now - ?tod + d * msPerDay) = (?lt - ?tod) + d * msPerDay"
    by (simp add: LocalTime_def)
  moreover have "Day (?lt - ?tod) = Day ?lt"
    using Day_TimeWithinDay [of ?lt] dm(2) by (simp add: Day_def TimeWithinDay_def minus_mod_eq_mult_div)
  ultimately have "Day (LocalTime h (now - ?tod + d * msPerDay)) = Day (LocalTime h (now + d * msPerDay))"
    by (simp add: l1 Day_shift)
  then have str: "toDateString h (Some (now + d * msPerDay)) =
      toDateString h (Some (now - ?tod + d * msPerDay))"
    by (intro toDateString_same_day) simp
  have w1: "map_of (applyReview h st fm (Some t1) lv) (dateProperty st) = Some (JStr (toDateString h (Some t1)))"
    by (simp add: applyReview_def set_field_same)
  have w2: "freqProperty st \<noteq> dateProperty st \<longrightarrow>
            map_of (applyReview h st fm (Some t1) lv) (freqProperty st) = Some (JNum lv)"
    by (simp add: applyReview_def set_field_same set_field_other)
  have w3: "p \<noteq> dateProperty st \<and> p \<noteq> freqProperty st \<longrightarrow>
            map_of (applyReview h st fm (Some t1) lv) p = map_of fm p"
    by (simp add: applyReview_def set_field_other)
  show ?thesis
    by (intro conjI lvl lvk sug quick today due str w1 w2 w3)
qed


theorem review_advance_witness:
  "newFreq (onOpen (host_at 60) DEFAULT_SETTINGS sample_now (note_due ''x'' 0\<lparr>reviewFreq := Num 2\<rparr>)) = Num 3
   \<and> nextDate (onOpen (host_at 60) DEFAULT_SETTINGS sample_now (note_due ''x'' 0\<lparr>reviewFreq := Num 2\<rparr>))
       = Some (sample_now + 9 * msPerDay)
   \<and> quickPick (host_at 60) DEFAULT_SETTINGS sample_now (note_due ''x'' 0\<lparr>reviewFreq := Num 2\<rparr>) 9
       = (Some (sample_now + 9 * msPerDay), Num 3)
   \<and> stripTime (host_at 60) (Some sample_now) = Some 1740783600000
   \<and> stripTime (host_at 60) (Some (sample_now + 9 * msPerDay)) = Some (1740783600000 + 9 * msPerDay)
   \<and> toDateString (host_at 60) (Some (sample_now + 9 * msPerDay)) = ''2025-03-10''"
proof -
  let ?h = "host_at 60"
  let ?n = "note_due ''x'' 0\<lparr>reviewFreq := Num 2\<rparr>"
  have a1: "0 \<le> sample_now" and a2: "0 \<le> LocalTime ?h sample_now" and a3: "(0::int) \<le> 9"
    and a4: "sample_now + 9 * msPerDay \<le> 8640000000000000"
    by (simp_all add: sample_now_def LocalTime_def host_at_def msPerDay_def)
  have tod: "TimeWithinDay (LocalTime ?h sample_now) = 68400000"
    by code_simp
  have lv: "reviewFreq ?n = Num 2"
    by (simp add: note_due_def)
  have iv: "getInterval (parseIntervals (intervals DEFAULT_SETTINGS)) (reviewFreq ?n) = Some 9"
    by code_simp
  have s: "toDateString ?h (Some (1740783600000 + 9 * msPerDay)) = ''2025-03-10''"
    by code_simp
  have n: "sample_now - 68400000 = 1740783600000"
    by (simp add: sample_now_def)
  show ?thesis
    using review_advance [OF a1 a2 a3 a4, of DEFAULT_SETTINGS ?n 2] tod lv iv s n
    by simp
qed

subsection \<open>Numbers in strings\<close>




subsection \<open>The scan\<close>

lemma scanFiles_append:
  "scanFiles h st t acc (fs1 @ fs2) =
     (case scanFiles h st t acc fs1 of Inl e \<Rightarrow> Inl e | Inr r \<Rightarrow> scanFiles h st t r fs2)"
  by (induction fs1 arbitrary: acc) (auto split: sum.splits option.splits)

lemma scanFiles_skip:
  "scanFile h st t f = Inr None \<Longrightarrow> scanFiles h st t acc (fs1 @ f # fs2) = scanFiles h st t acc (fs1 @ fs2)"
  by (simp add: scanFiles_append split: sum.splits)

lemma scanFiles_encountered:
  "\<forall>f\<in>set fs. scanFile h st t f \<noteq> Inl TypeError \<Longrightarrow>
   scanFiles h st t acc fs = Inr (acc @ encountered h st t fs)"
proof (induction fs arbitrary: acc)
  case Nil
  show ?case by (simp add: encountered_def)
next
  case (Cons f fs)
  then have IH: "\<And>acc. scanFiles h st t acc fs = Inr (acc @ encountered h st t fs)"
    by simp
  from Cons.prems have "scanFile h st t f \<noteq> Inl TypeError" by simp
  then show ?case
    using IH by (cases "scanFile h st t f"; simp add: encountered_def split: option.splits)
      (metis error.exhaust)
qed

lemma scanFile_days:
  "scanFile h st (Some t) f = Inr (Some n) \<Longrightarrow> daysUntil n \<noteq> None"
  by (auto simp: scanFile_def Let_def daysBetween_def split: option.splits if_splits sum.splits)

lemma encountered_days:
  "n \<in> set (encountered h st (Some t) fs) \<Longrightarrow> daysUntil n \<noteq> None"
proof -
  assume "n \<in> set (encountered h st (Some t) fs)"
  then obtain f where "scanFile h st (Some t) f = Inr (Some n)"
    by (auto simp: encountered_def split: sum.splits option.splits)
  then show ?thesis by (rule scanFile_days)
qed

lemma sort_insert_key:
  assumes "daysUntil x \<noteq> None" "\<forall>n\<in>set ys. daysUntil n \<noteq> None"
  shows "sort_insert byDaysUntil x ys = insort_key (\<lambda>n. the (daysUntil n)) x ys"
  using assms
  by (induction ys) (auto simp: SortCompare_def byDaysUntil_def)

lemma array_sort_key:
  "\<forall>n\<in>set ns. daysUntil n \<noteq> None \<Longrightarrow> array_sort byDaysUntil ns = sort_key (\<lambda>n. the (daysUntil n)) ns"
proof (induction ns)
  case Nil
  show ?case by simp
next
  case (Cons x xs)
  then have "array_sort byDaysUntil xs = sort_key (\<lambda>n. the (daysUntil n)) xs" by simp
  moreover have "\<forall>n\<in>set (sort_key (\<lambda>n. the (daysUntil n)) xs). daysUntil n \<noteq> None"
    using Cons.prems by simp
  ultimately show ?case
    using Cons.prems by (simp add: sort_insert_key)
qed

lemma scanFile_tags:
  assumes "cached f = Some fm" and "scanFile h st today' f = Inr (Some n)"
  shows "(field fm ''tags'' = JUndefined \<longrightarrow> tags n = [])
       \<and> (field fm ''tags'' = JArr xs \<longrightarrow> all_of (map (ToString h) xs) = Inr (tags n))"
  using assms
  by (auto simp: scanFile_def Let_def map_String_def nullish_def split: if_splits sum.splits)

lemma scanFile_tags_not_list:
  assumes "cached f = Some fm"
    and "truthy (field fm (dateProperty st))"
    and "ToString h (field fm (dateProperty st)) = Inr s"
    and "stripTime h (Date_of_string h s) \<noteq> None"
    and "map_of fm ''tags'' = Some v" "v \<noteq> JUndefined" "v \<noteq> JNull" "\<forall>xs. v \<noteq> JArr xs"
  shows "scanFile h st today' f = Inl TypeError"
proof -
  have "map_String h (nullish (field fm ''tags'') (JArr [])) = Inl TypeError"
    using assms(5-8) by (cases v) (simp_all add: map_String_def field_def nullish_def)
  then show ?thesis
    using assms(1-4)
    by (cases "ToNumber h (nullish (field fm (freqProperty st)) (JNum (Num 0)))")
      (auto simp: scanFile_def Let_def intro: error.exhaust)
qed







text \<open>
  Claim C6. The claim is that the scan raises nothing whatever the shape of a
  value. A \<open>tags\<close> property that is a string, which YAML gives for \<open>tags: foo\<close>,
  has no \<open>map\<close> method: the scan of a vault with such a file ends in a
  \<open>TypeError\<close>, and no note of any file is returned.
\<close>

theorem scanVault_tags_string_raises:
  "scanVault (host_at 0) DEFAULT_SETTINGS sample_now
     [file_with ''a'' [(''review_next'', JStr ''2025-03-01'')],
      file_with ''b'' [(''review_next'', JStr ''2025-03-05''), (''tags'', JStr ''foo'')]]
   = Inl TypeError"
  by code_simp

text \<open>
  A file whose date property reads as a value that counts as false (\<open>undefined\<close>,
  \<open>null\<close>, the empty string, 0, \<open>NaN\<close> or \<open>false\<close>), or as a value that
  \<open>String\<close> prints as something \<open>new Date\<close> cannot read, gives no note and raises
  nothing: the loop goes on to the next file, and the scan of the vault is what it
  is without the file. The string \<open>not-a-date\<close> is no calendar date, so it is such
  a value on every host whose own parser rejects it.
\<close>

lemma scanFile_skips:
  assumes "cached f = Some fm"
    and "\<not> truthy (field fm (dateProperty st))
       \<or> (\<exists>s. ToString h (field fm (dateProperty st)) = Inr s \<and> Date_of_string h s = None)"
  shows "scanFile h st today' f = Inr None
       \<and> scanVault h st now (fs1 @ f # fs2) = scanVault h st now (fs1 @ fs2)
       \<and> (legacyParse h ''not-a-date'' = None \<longrightarrow> Date_of_string h ''not-a-date'' = None)"
proof -
  have strip: "stripTime h None = None"
    by (simp add: stripTime_def getFullYear_def getMonth_def getDate_def Date3_def)
  have skip: "scanFile h st t f = Inr None" for t
    using assms strip by (auto simp: scanFile_def Let_def)
  have "iso_date ''not-a-date'' = None"
    by (simp add: iso_date_def Let_def is_digit_def)
  then have "legacyParse h ''not-a-date'' = None \<longrightarrow> Date_of_string h ''not-a-date'' = None"
    by (simp add: Date_of_string_def)
  then show ?thesis
    using skip scanFiles_skip [OF skip] by (simp add: scanVault_def Let_def)
qed

lemma scanFile_skips_examples:
  "scanFile (host_at 0) DEFAULT_SETTINGS (Some 0) (file_with ''c'' [(''review_next'', JStr ''not-a-date'')]) = Inr None
   \<and> scanFile (host_at 0) DEFAULT_SETTINGS (Some 0) (file_with ''d'' [(''review_freq'', JNum (Num 2))]) = Inr None
   \<and> scanFile (host_at 0) DEFAULT_SETTINGS (Some 0) (file_with ''e'' [(''review_next'', JStr [])]) = Inr None
   \<and> scanFile (host_at 0) DEFAULT_SETTINGS (Some 0) (file_with ''n'' [(''review_next'', JNull)]) = Inr None"
  by code_simp

text \<open>
  Claim C7. The claim is that a file whose date value is no date gives no note and
  that nothing is raised. The scan keeps to it for the values above, but it prints
  the date value with \<open>String\<close> before it looks at it: a date value that is the
  mapping \<open>{toString: 1}\<close> is no date, and \<open>String\<close> raises a \<open>TypeError\<close> on it, so
  the scan of the vault ends in that exception and returns no note of any file.
\<close>

theorem scanVault_date_mapping_raises:
  "scanFile (host_at 0) DEFAULT_SETTINGS (Some 0)
     (file_with ''m'' [(''review_next'', JObj [(''toString'', JNum (Num 1))])])
   = Inl TypeError
   \<and> scanVault (host_at 0) DEFAULT_SETTINGS sample_now
       [file_with ''a'' [(''review_next'', JStr ''2025-03-01'')],
        file_with ''m'' [(''review_next'', JObj [(''toString'', JNum (Num 1))])]]
     = Inl TypeError"
  by code_simp

text \<open>
  Claim C8. When the clock reading normalises to a valid date and no file raises,
  \<open>scanVault\<close> returns a list that is sorted by \<open>daysUntil\<close> in ascending order and
  holds the notes of the files, each as often as the loop pushed it; the notes
  with the same \<open>daysUntil\<close> stand in the order in which the loop met them. The
  result is a function of the host, the settings, the clock reading and the
  files: the same input gives the same list.
\<close>

theorem scanVault_sorted_stable:
  assumes "stripTime h (Some now) = Some t"
    and "\<forall>f\<in>set files. scanFile h st (Some t) f \<noteq> Inl TypeError"
  shows "\<exists>out. scanVault h st now files = Inr out
       \<and> (\<forall>n\<in>set out. daysUntil n \<noteq> None)
       \<and> sorted (map (\<lambda>n. the (daysUntil n)) out)
       \<and> mset out = mset (encountered h st (Some t) files)
       \<and> (\<forall>k. filter (\<lambda>n. daysUntil n = Some k) out =
                filter (\<lambda>n. daysUntil n = Some k) (encountered h st (Some t) files))"
proof -
  let ?pre = "encountered h st (Some t) files"
  let ?key = "\<lambda>n. the (daysUntil n)"
  let ?out = "sort_key ?key ?pre"
  have days: "\<forall>n\<in>set ?pre. daysUntil n \<noteq> None"
    using encountered_days by blast
  have "scanFiles h st (Some t) [] files = Inr ?pre"
    using scanFiles_encountered [OF assms(2), of "[]"] by simp
  then have out: "scanVault h st now files = Inr ?out"
    using assms(1) days by (simp add: scanVault_def array_sort_key)
  have stable: "filter (\<lambda>n. daysUntil n = Some k) ?out = filter (\<lambda>n. daysUntil n = Some k) ?pre" for k
  proof -
    have "filter (\<lambda>n. daysUntil n = Some k) ?out = filter (\<lambda>n. ?key n = k) ?out"
      using days by (intro filter_cong) auto
    also have "\<dots> = filter (\<lambda>n. ?key n = k) ?pre"
      by (rule sort_key_stable)
    also have "\<dots> = filter (\<lambda>n. daysUntil n = Some k) ?pre"
      using days by (intro filter_cong) auto
    finally show ?thesis .
  qed
  have "(\<forall>n\<in>set ?out. daysUntil n \<noteq> None) \<and> sorted (map ?key ?out) \<and> mset ?out = mset ?pre"
    using days by simp
  then show ?thesis
    using out stable by blast
qed

theorem scanVault_sorted_stable_witness:
  "stripTime (host_at 60) (Some sample_now) = Some 1740783600000
   \<and> (\<exists>out. scanVault (host_at 60) DEFAULT_SETTINGS sample_now sample_files = Inr out
         \<and> sorted (map (\<lambda>n. the (daysUntil n)) out)
         \<and> filter (\<lambda>n. daysUntil n = Some 4) out =
             filter (\<lambda>n. daysUntil n = Some 4)
               (encountered (host_at 60) DEFAULT_SETTINGS (Some 1740783600000) sample_files))
   \<and> map_sum id (map (\<lambda>n. (title n, daysUntil n)))
        (scanVault (host_at 60) DEFAULT_SETTINGS sample_now sample_files)
      = Inr [(''b'', Some (- 9)), (''a'', Some 4), (''e'', Some 4)]"
proof -
  have t: "stripTime (host_at 60) (Some sample_now) = Some 1740783600000"
    by code_simp
  have f: "\<forall>f\<in>set sample_files. scanFile (host_at 60) DEFAULT_SETTINGS (Some 1740783600000) f \<noteq> Inl TypeError"
    by code_simp
  have v: "map_sum id (map (\<lambda>n. (title n, daysUntil n)))
        (scanVault (host_at 60) DEFAULT_SETTINGS sample_now sample_files)
      = Inr [(''b'', Some (- 9)), (''a'', Some 4), (''e'', Some 4)]"
    by code_simp
  show ?thesis
    using scanVault_sorted_stable [OF t f] t v by blast
qed

subsection \<open>The buckets\<close>

lemma foldl_bucket_push:
  "foldl (bucket_push t) b ns =
     \<lparr>overdue = overdue b @ filter (\<lambda>n. lt_int (daysUntil n) 0) ns,
      today = today b @ filter (\<lambda>n. \<not> lt_int (daysUntil n) 0 \<and> daysUntil n = Some 0) ns,
      upcoming = upcoming b @
        filter (\<lambda>n. \<not> lt_int (daysUntil n) 0 \<and> daysUntil n \<noteq> Some 0 \<and> le_int (daysUntil n) t) ns,
      later = later b @
        filter (\<lambda>n. \<not> lt_int (daysUntil n) 0 \<and> daysUntil n \<noteq> Some 0 \<and> \<not> le_int (daysUntil n) t) ns\<rparr>"
proof (induction ns arbitrary: b)
  case Nil
  show ?case by simp
next
  case (Cons n ns)
  show ?case
    by (simp add: Cons.IH) (simp add: bucket_push_def)
qed

lemma filter_cong_set: "(\<And>x. x \<in> set xs \<Longrightarrow> P x = Q x) \<Longrightarrow> filter P xs = filter Q xs"
  by (rule filter_cong) auto

lemma four_way_mset:
  assumes "\<And>x. x \<in> set xs \<Longrightarrow>
      (P1 x \<and> \<not> P2 x \<and> \<not> P3 x \<and> \<not> P4 x) \<or> (\<not> P1 x \<and> P2 x \<and> \<not> P3 x \<and> \<not> P4 x)
    \<or> (\<not> P1 x \<and> \<not> P2 x \<and> P3 x \<and> \<not> P4 x) \<or> (\<not> P1 x \<and> \<not> P2 x \<and> \<not> P3 x \<and> P4 x)"
  shows "mset (filter P1 xs) + mset (filter P2 xs) + mset (filter P3 xs) + mset (filter P4 xs) = mset xs"
  using assms
proof (induction xs)
  case Nil
  show ?case by simp
next
  case (Cons x xs)
  then have IH: "mset (filter P1 xs) + mset (filter P2 xs) + mset (filter P3 xs) + mset (filter P4 xs) = mset xs"
    by simp
  from Cons.prems [of x] show ?case
    using IH [symmetric] by auto
qed

text \<open>
  Claim C1. For a threshold that is not negative and notes whose \<open>daysUntil\<close> are
  integers, each bucket is the input list filtered by its condition, in the order
  of the input: overdue below 0, today at 0, upcoming from 1 to the threshold,
  later above the threshold. The four buckets together hold every note exactly as
  often as the input does, so their lengths add up to the length of the input.
  With the threshold 7 a note due in 7 days is upcoming and one due in 8 days is
  later.
\<close>

theorem bucketize_partition:
  assumes "0 \<le> upcomingDays st" and "\<forall>n\<in>set notes. daysUntil n \<noteq> None"
  shows "overdue (bucketize st notes) = filter (\<lambda>n. the (daysUntil n) < 0) notes
       \<and> today (bucketize st notes) = filter (\<lambda>n. the (daysUntil n) = 0) notes
       \<and> upcoming (bucketize st notes) =
           filter (\<lambda>n. 0 < the (daysUntil n) \<and> the (daysUntil n) \<le> upcomingDays st) notes
       \<and> later (bucketize st notes) = filter (\<lambda>n. upcomingDays st < the (daysUntil n)) notes
       \<and> mset (overdue (bucketize st notes)) + mset (today (bucketize st notes))
           + mset (upcoming (bucketize st notes)) + mset (later (bucketize st notes)) = mset notes
       \<and> length (overdue (bucketize st notes)) + length (today (bucketize st notes))
           + length (upcoming (bucketize st notes)) + length (later (bucketize st notes)) = length notes
       \<and> (upcomingDays st = 7 \<longrightarrow>
            upcoming (bucketize st [note_due a 7, note_due b 8]) = [note_due a 7]
          \<and> later (bucketize st [note_due a 7, note_due b 8]) = [note_due b 8])"
proof -
  let ?t = "upcomingDays st"
  let ?b = "bucketize st notes"
  have o: "overdue ?b = filter (\<lambda>n. the (daysUntil n) < 0) notes"
    using assms(2) unfolding bucketize_def Let_def foldl_bucket_push
    by (auto intro!: filter_cong_set simp: lt_int_def)
  have t: "today ?b = filter (\<lambda>n. the (daysUntil n) = 0) notes"
    using assms(2) unfolding bucketize_def Let_def foldl_bucket_push
    by (auto intro!: filter_cong_set simp: lt_int_def)
  have u: "upcoming ?b = filter (\<lambda>n. 0 < the (daysUntil n) \<and> the (daysUntil n) \<le> ?t) notes"
    using assms(2) unfolding bucketize_def Let_def foldl_bucket_push
    by (auto intro!: filter_cong_set simp: lt_int_def le_int_def)
  have l: "later ?b = filter (\<lambda>n. ?t < the (daysUntil n)) notes"
    using assms unfolding bucketize_def Let_def foldl_bucket_push
    by (auto intro!: filter_cong_set simp: lt_int_def le_int_def)
  have m: "mset (overdue ?b) + mset (today ?b) + mset (upcoming ?b) + mset (later ?b) = mset notes"
    unfolding o t u l using assms(1) by (intro four_way_mset) arith
  have "size (mset (overdue ?b) + mset (today ?b) + mset (upcoming ?b) + mset (later ?b)) = size (mset notes)"
    using m by simp
  then have len: "length (overdue ?b) + length (today ?b) + length (upcoming ?b) + length (later ?b) = length notes"
    by simp
  have ex: "?t = 7 \<longrightarrow>
            upcoming (bucketize st [note_due a 7, note_due b 8]) = [note_due a 7]
          \<and> later (bucketize st [note_due a 7, note_due b 8]) = [note_due b 8]"
    by (simp add: bucketize_def bucket_push_def note_due_def lt_int_def le_int_def)
  show ?thesis
    by (intro conjI o t u l m len ex)
qed

theorem bucketize_partition_witness:
  "overdue (bucketize DEFAULT_SETTINGS [note_due ''a'' 3, note_due ''b'' (- 2), note_due ''c'' 0, note_due ''d'' 9])
     = [note_due ''b'' (- 2)]
   \<and> today (bucketize DEFAULT_SETTINGS [note_due ''a'' 3, note_due ''b'' (- 2), note_due ''c'' 0, note_due ''d'' 9])
     = [note_due ''c'' 0]
   \<and> upcoming (bucketize DEFAULT_SETTINGS [note_due ''a'' 3, note_due ''b'' (- 2), note_due ''c'' 0, note_due ''d'' 9])
     = [note_due ''a'' 3]
   \<and> later (bucketize DEFAULT_SETTINGS [note_due ''a'' 3, note_due ''b'' (- 2), note_due ''c'' 0, note_due ''d'' 9])
     = [note_due ''d'' 9]
   \<and> upcoming (bucketize DEFAULT_SETTINGS [note_due ''x'' 7, note_due ''y'' 8]) = [note_due ''x'' 7]
   \<and> later (bucketize DEFAULT_SETTINGS [note_due ''x'' 7, note_due ''y'' 8]) = [note_due ''y'' 8]"
proof -
  let ?ns = "[note_due ''a'' 3, note_due ''b'' (- 2), note_due ''c'' 0, note_due ''d'' 9]"
  have h: "0 \<le> upcomingDays DEFAULT_SETTINGS" "upcomingDays DEFAULT_SETTINGS = 7"
    by (simp_all add: DEFAULT_SETTINGS_def)
  have s: "\<forall>n\<in>set ?ns. daysUntil n \<noteq> None"
    by (simp add: note_due_def)
  show ?thesis
    using bucketize_partition [OF h(1) s, of "''x''" "''y''"] h(2)
    by (simp add: note_due_def)
qed

end
